theory Spec2Isabelle
  imports Main "HOL-Library.Word" "HOL-Library.Multiset"
begin

section \<open>The sentence store of \<open>trainer_interface.h\<close>\<close>

text \<open>
  The header \<open>src/trainer_interface.h\<close> holds the generic ranking function \<open>Sorted\<close>
  and the class \<open>TrainerInterface\<close>, whose inline methods keep the training sentences in
  a LevelDB database: \<open>addSentenceToDB\<close>, \<open>removeSentenceFromDB\<close>, \<open>loadSentencesFromDB\<close>,
  \<open>getSentenceFromDB\<close>, \<open>updateSentenceInDB\<close> and \<open>getDBSize\<close>.

  Conventions of the embedding.
  \<^item> \<open>std::string\<close> is \<open>string\<close>, a list of 8-bit characters; it may contain the byte 0.
  \<^item> \<open>int64_t\<close> and \<open>size_t\<close> are \<open>64 word\<close> (an LP64 platform); the count of a sentence
    is read with \<open>sint\<close>, an index with \<open>unat\<close>; \<open>++current_index_\<close> wraps.
  \<^item> A method that throws returns \<open>Thrown e\<close>, one that returns normally \<open>Returned v\<close>.
    The object survives an exception, so every mutating method also returns the state.
  \<^item> Every call into LevelDB takes the status that the storage medium reports for this
    call as its first argument (\<open>OK\<close> when the medium works).
  \<^item> Isabelle reserves names that end in an underscore, so the members \<open>db_\<close> and
    \<open>current_index_\<close> are the fields \<open>db\<close> and \<open>current_index\<close>; the local \<open>count\<close> is
    \<open>cnt\<close> and \<open>value\<close> is \<open>val\<close>, since both names are taken.
\<close>

subsection \<open>Characters and the conversions of the C++ standard library\<close>

definition NUL :: char where
  "NUL = CHR 0x00"

definition digit_char :: "nat \<Rightarrow> char" where
  \<comment> \<open>the character \<open>'0' + d\<close>\<close>
  "digit_char d = char_of (48 + d)"

definition isdigit :: "char \<Rightarrow> bool" where
  "isdigit c = (48 \<le> (of_char c :: nat) \<and> (of_char c :: nat) \<le> 57)"

definition isspace :: "char \<Rightarrow> bool" where
  \<comment> \<open>space, and the control characters \<open>\t \n \v \f \r\<close>\<close>
  "isspace c = ((of_char c :: nat) = 32 \<or> (9 \<le> (of_char c :: nat) \<and> (of_char c :: nat) \<le> 13))"

definition digit_val :: "char \<Rightarrow> nat" where
  "digit_val c = of_char c - 48"

fun dec :: "nat \<Rightarrow> string" where
  \<comment> \<open>the decimal digits of a number, most significant first, no padding\<close>
  "dec n = (if n < 10 then [digit_char n] else dec (n div 10) @ [digit_char (n mod 10)])"

definition to_string_size_t :: "64 word \<Rightarrow> string" where
  \<comment> \<open>\<open>std::to_string(size_t)\<close>\<close>
  "to_string_size_t i = dec (unat i)"

definition to_string_int64 :: "64 word \<Rightarrow> string" where
  \<comment> \<open>\<open>std::to_string(int64_t)\<close>: a minus sign for a negative value\<close>
  "to_string_int64 c =
     (if sint c < 0 then CHR ''-'' # dec (nat (- sint c)) else dec (nat (sint c)))"

definition parse_digits :: "string \<Rightarrow> nat" where
  "parse_digits ds = foldl (\<lambda>a c. 10 * a + digit_val c) 0 ds"

datatype exn = runtime_error string | out_of_range string | invalid_argument string

datatype 'a outcome = Returned 'a | Thrown exn

definition stoll :: "string \<Rightarrow> exn + 64 word" where
  \<comment> \<open>\<open>std::stoll(str)\<close>, base 10: leading white space is skipped, then an optional
      sign and the longest run of digits are read; what follows is ignored.
      No digit: \<open>std::invalid_argument\<close>. Outside \<open>long long\<close>: \<open>std::out_of_range\<close>.\<close>
  "stoll str =
     (let s1 = dropWhile isspace str;
          neg = (case s1 of [] \<Rightarrow> False | c # r \<Rightarrow> c = CHR ''-'');
          s2 = (case s1 of [] \<Rightarrow> s1
                | c # r \<Rightarrow> if c = CHR ''-'' \<or> c = CHR ''+'' then r else s1);
          ds = takeWhile isdigit s2
      in if ds = [] then Inl (invalid_argument ''stoll'')
         else let v = (if neg then - int (parse_digits ds) else int (parse_digits ds))
              in if v < - (2 ^ 63) \<or> 2 ^ 63 - 1 < v then Inl (out_of_range ''stoll'')
                 else Inr (word_of_int v))"

fun string_find :: "string \<Rightarrow> char \<Rightarrow> nat option" where
  \<comment> \<open>\<open>std::string::find(char)\<close>; \<open>None\<close> is \<open>npos\<close>\<close>
  "string_find [] c = None"
| "string_find (x # xs) c = (if x = c then Some 0 else map_option Suc (string_find xs c))"

definition substr :: "string \<Rightarrow> nat \<Rightarrow> nat \<Rightarrow> string" where
  \<comment> \<open>\<open>s.substr(pos, n)\<close> for \<open>pos \<le> size\<close>\<close>
  "substr s pos n = take n (drop pos s)"

definition substr_from :: "string \<Rightarrow> nat \<Rightarrow> string" where
  \<comment> \<open>\<open>s.substr(pos)\<close> for \<open>pos \<le> size\<close>; both callers pass the position after a
      character that \<open>find\<close> located, so the \<open>out_of_range\<close> of a larger \<open>pos\<close> cannot arise\<close>
  "substr_from s pos = drop pos s"

subsection \<open>\<open>Sorted\<close>\<close>

text \<open>
  \<open>Sorted\<close> is a template over the key type \<open>K\<close> and the value type \<open>V\<close>. The embedding
  takes both with a linear order, which is what \<open><\<close>, \<open>>\<close> and \<open>==\<close> are on integers and
  strings. The overload for a hash map copies the map into a vector and calls the one
  for vectors, which is the one modelled.
\<close>

definition Sorted_cmp :: "('k::linorder \<times> 'v::linorder) \<Rightarrow> ('k \<times> 'v) \<Rightarrow> bool" where
  \<comment> \<open>the lambda handed to \<open>std::sort\<close>\<close>
  "Sorted_cmp p1 p2 = (snd p1 > snd p2 \<or> (snd p1 = snd p2 \<and> fst p1 < fst p2))"

fun insert_by :: "('a \<Rightarrow> 'a \<Rightarrow> bool) \<Rightarrow> 'a \<Rightarrow> 'a list \<Rightarrow> 'a list" where
  "insert_by lt x [] = [x]"
| "insert_by lt x (y # ys) = (if lt y x then y # insert_by lt x ys else x # y # ys)"

definition std_sort :: "('a \<Rightarrow> 'a \<Rightarrow> bool) \<Rightarrow> 'a list \<Rightarrow> 'a list" where
  \<comment> \<open>\<open>std::sort(first, last, comp)\<close>, as a sort by insertion. The standard leaves the
      order of equivalent elements open; under \<open>Sorted_cmp\<close> on linearly ordered keys and
      values only equal pairs are equivalent, so every sorting algorithm returns this list.\<close>
  "std_sort lt xs = foldr (insert_by lt) xs []"

definition Sorted :: "('k::linorder \<times> 'v::linorder) list \<Rightarrow> ('k \<times> 'v) list" where
  "Sorted m = (let v = m in std_sort Sorted_cmp v)"

subsection \<open>LevelDB\<close>

text \<open>
  Modelled from the spec: the LevelDB library (\<open>leveldb/db.h\<close>) is not under src/. The
  spec describes the store as a durable, indexed key-value store with insert, point
  lookup, point update, point delete and a full ordered scan whose order is the store's
  native byte-wise key ordering (``10'' sorts before ``2''). The database is the list of
  its records in that order. The header opens it with default options, hence with the
  byte-wise comparator. A call that the medium rejects changes nothing and returns the
  medium's status.
\<close>

datatype Status = OK | NotFound string | Corruption string | NotSupported string
  | InvalidArgument string | IOError string

definition ok :: "Status \<Rightarrow> bool" where
  "ok s = (s = OK)"

fun ToString :: "Status \<Rightarrow> string" where
  "ToString OK = ''OK''"
| "ToString (NotFound m) = ''NotFound: '' @ m"
| "ToString (Corruption m) = ''Corruption: '' @ m"
| "ToString (NotSupported m) = ''Not implemented: '' @ m"
| "ToString (InvalidArgument m) = ''Invalid argument: '' @ m"
| "ToString (IOError m) = ''IO error: '' @ m"

type_synonym leveldb_DB = "(string \<times> string) list"

fun bytewise_less :: "string \<Rightarrow> string \<Rightarrow> bool" where
  \<comment> \<open>the byte-wise comparator: the first differing byte decides, a proper prefix is smaller\<close>
  "bytewise_less [] [] = False"
| "bytewise_less [] (y # ys) = True"
| "bytewise_less (x # xs) [] = False"
| "bytewise_less (x # xs) (y # ys) =
     (if x = y then bytewise_less xs ys else (of_char x :: nat) < of_char y)"

fun table_put :: "string \<Rightarrow> string \<Rightarrow> leveldb_DB \<Rightarrow> leveldb_DB" where
  "table_put k v [] = [(k, v)]"
| "table_put k v ((k', v') # rest) =
     (if k = k' then (k, v) # rest
      else if bytewise_less k k' then (k, v) # (k', v') # rest
      else (k', v') # table_put k v rest)"

definition leveldb_Open :: "Status \<Rightarrow> leveldb_DB \<Rightarrow> Status \<times> leveldb_DB" where
  \<comment> \<open>\<open>DB::Open\<close> with \<open>create_if_missing\<close>: \<open>disk\<close> is what the directory holds, \<open>[]\<close> when
      it is created\<close>
  "leveldb_Open io disk = (if io = OK then (OK, disk) else (io, []))"

definition leveldb_Put :: "Status \<Rightarrow> leveldb_DB \<Rightarrow> string \<Rightarrow> string \<Rightarrow> Status \<times> leveldb_DB" where
  "leveldb_Put io d key val = (if io = OK then (OK, table_put key val d) else (io, d))"

definition leveldb_Get :: "Status \<Rightarrow> leveldb_DB \<Rightarrow> string \<Rightarrow> Status \<times> string" where
  "leveldb_Get io d key =
     (if io = OK then (case map_of d key of None \<Rightarrow> (NotFound [], []) | Some v \<Rightarrow> (OK, v))
      else (io, []))"

definition leveldb_Delete :: "Status \<Rightarrow> leveldb_DB \<Rightarrow> string \<Rightarrow> Status \<times> leveldb_DB" where
  "leveldb_Delete io d key =
     (if io = OK then (OK, filter (\<lambda>kv. fst kv \<noteq> key) d) else (io, d))"

definition leveldb_NewIterator ::
  "Status \<Rightarrow> nat \<Rightarrow> leveldb_DB \<Rightarrow> (string \<times> string) list \<times> Status" where
  \<comment> \<open>the records that \<open>SeekToFirst\<close>, \<open>Valid\<close> and \<open>Next\<close> deliver, and the final
      \<open>it->status()\<close>; a failing medium ends the iteration after \<open>n\<close> records\<close>
  "leveldb_NewIterator io n d = (if io = OK then (d, OK) else (take n d, io))"

subsection \<open>\<open>TrainerInterface\<close>\<close>

text \<open>
  The methods of the store read and write two members only, the database handle \<open>db_\<close>
  and the counter \<open>current_index_\<close>; the record holds these two. The other members of the
  class (the specs, the pieces, the status) belong to methods that the header only
  declares.
\<close>

type_synonym Sentence = "string \<times> 64 word"

record TrainerInterface =
  db :: leveldb_DB
  current_index :: "64 word"

definition TrainerInterface_ctor :: "Status \<Rightarrow> leveldb_DB \<Rightarrow> TrainerInterface outcome" where
  "TrainerInterface_ctor io disk =
     (let (status, d) = leveldb_Open io disk
      in if \<not> ok status
         then Thrown (runtime_error (''Failed to open LevelDB: '' @ ToString status))
         else Returned \<lparr>db = d, current_index = 0\<rparr>)"

definition addSentenceToDB ::
  "Status \<Rightarrow> Sentence \<Rightarrow> TrainerInterface \<Rightarrow> unit outcome \<times> TrainerInterface" where
  "addSentenceToDB io sentence t =
     (let key = to_string_size_t (current_index t);
          val = fst sentence @ [NUL] @ to_string_int64 (snd sentence);
          (s, d) = leveldb_Put io (db t) key val
      in if \<not> ok s
         then (Thrown (runtime_error (''Failed to write to LevelDB: '' @ ToString s)),
               t\<lparr>db := d\<rparr>)
         else (Returned (), t\<lparr>db := d, current_index := current_index t + 1\<rparr>))"

definition removeSentenceFromDB ::
  "Status \<Rightarrow> 64 word \<Rightarrow> TrainerInterface \<Rightarrow> unit outcome \<times> TrainerInterface" where
  "removeSentenceFromDB io index t =
     (let key = to_string_size_t index;
          (s, d) = leveldb_Delete io (db t) key
      in if \<not> ok s
         then (Thrown (runtime_error (''Failed to delete from LevelDB: '' @ ToString s)),
               t\<lparr>db := d\<rparr>)
         else (Returned (), t\<lparr>db := d\<rparr>))"

fun load_loop :: "(string \<times> string) list \<Rightarrow> string list \<Rightarrow> unit outcome \<times> string list" where
  \<comment> \<open>the \<open>for\<close> loop of \<open>loadSentencesFromDB\<close> over the records the iterator delivers;
      the second argument is the lines written to \<open>std::cout\<close> so far\<close>
  "load_loop [] out = (Returned (), out)"
| "load_loop ((key, val) # rest) out =
     (case string_find val NUL of
        None \<Rightarrow> (Thrown (runtime_error ''Corrupted value in LevelDB''), out)
      | Some pos \<Rightarrow>
          (let sentence = substr val 0 pos
           in case stoll (substr_from val (pos + 1)) of
                Inl e \<Rightarrow> (Thrown e, out)
              | Inr cnt \<Rightarrow>
                  load_loop rest
                    (out @ [''Sentence: '' @ sentence @ '', Count: '' @ to_string_int64 cnt])))"

definition loadSentencesFromDB ::
  "Status \<Rightarrow> nat \<Rightarrow> TrainerInterface \<Rightarrow> unit outcome \<times> string list" where
  "loadSentencesFromDB io n t =
     (let (records, status) = leveldb_NewIterator io n (db t);
          (r, out) = load_loop records []
      in case r of
           Thrown e \<Rightarrow> (Thrown e, out)
         | Returned u \<Rightarrow>
             if \<not> ok status
             then (Thrown (runtime_error (''Failed to iterate LevelDB: '' @ ToString status)), out)
             else (Returned (), out))"

definition getSentenceFromDB :: "Status \<Rightarrow> 64 word \<Rightarrow> TrainerInterface \<Rightarrow> Sentence outcome" where
  "getSentenceFromDB io index t =
     (let key = to_string_size_t index;
          (s, val) = leveldb_Get io (db t) key
      in if \<not> ok s
         then Thrown (out_of_range
                (''Index out of range or failed to read from LevelDB: '' @ ToString s))
         else case string_find val NUL of
                None \<Rightarrow> Thrown (runtime_error ''Corrupted value in LevelDB'')
              | Some pos \<Rightarrow>
                  (let sentence = substr val 0 pos
                   in case stoll (substr_from val (pos + 1)) of
                        Inl e \<Rightarrow> Thrown e
                      | Inr cnt \<Rightarrow> Returned (sentence, cnt)))"

definition updateSentenceInDB ::
  "Status \<Rightarrow> 64 word \<Rightarrow> Sentence \<Rightarrow> TrainerInterface \<Rightarrow> unit outcome \<times> TrainerInterface" where
  "updateSentenceInDB io index newSentence t =
     (let key = to_string_size_t index;
          val = fst newSentence @ [NUL] @ to_string_int64 (snd newSentence);
          (s, d) = leveldb_Put io (db t) key val
      in if \<not> ok s
         then (Thrown (runtime_error (''Failed to update LevelDB: '' @ ToString s)),
               t\<lparr>db := d\<rparr>)
         else (Returned (), t\<lparr>db := d\<rparr>))"


subsection \<open>Sequences of calls\<close>

text \<open>
  A caller issues store operations one after the other; each carries the status that the
  medium reports for it. A caller that stops at the first exception issues a shorter
  sequence, so running on after an exception loses no behaviour.
\<close>

datatype store_op =
    Insert Status Sentence
  | Update Status "64 word" Sentence
  | Delete Status "64 word"

fun apply_op :: "TrainerInterface \<Rightarrow> store_op \<Rightarrow> TrainerInterface" where
  "apply_op t (Insert io s) = snd (addSentenceToDB io s t)"
| "apply_op t (Update io i s) = snd (updateSentenceInDB io i s t)"
| "apply_op t (Delete io i) = snd (removeSentenceFromDB io i t)"

definition run_ops :: "store_op list \<Rightarrow> TrainerInterface \<Rightarrow> TrainerInterface" where
  "run_ops ops t = foldl apply_op t ops"

definition add_each :: "(Status \<times> Sentence) list \<Rightarrow> TrainerInterface \<Rightarrow> TrainerInterface" where
  \<comment> \<open>one \<open>addSentenceToDB\<close> per element, in order\<close>
  "add_each xs t = run_ops (map (\<lambda>(io, s). Insert io s) xs) t"

definition successful :: "(Status \<times> Sentence) list \<Rightarrow> Sentence list" where
  \<comment> \<open>the sentences of the insertions that the medium accepted, in order\<close>
  "successful xs = map snd (filter (\<lambda>x. fst x = OK) xs)"

definition fresh :: TrainerInterface where
  \<comment> \<open>the object that the constructor builds when it creates the database\<close>
  "fresh = \<lparr>db = [], current_index = 0\<rparr>"


definition sentence_ok :: "Sentence \<Rightarrow> bool" where
  \<comment> \<open>a text without the separator byte and a count of at least one\<close>
  "sentence_ok s = (NUL \<notin> set (fst s) \<and> 1 \<le> sint (snd s))"

fun op_ok :: "store_op \<Rightarrow> bool" where
  "op_ok (Insert io s) = sentence_ok s"
| "op_ok (Update io i s) = sentence_ok s"
| "op_ok (Delete io i) = True"

definition record_ok :: "string \<times> string \<Rightarrow> bool" where
  \<comment> \<open>the invariant of the proofs about sequences: a record written for some id from a
      sentence that satisfies \<open>sentence_ok\<close>\<close>
  "record_ok kv = (\<exists>i tx c. fst kv = to_string_size_t i
                     \<and> snd kv = tx @ [NUL] @ to_string_int64 c
                     \<and> NUL \<notin> set tx \<and> 1 \<le> sint c)"

section \<open>Properties\<close>

declare dec.simps [simp del]

subsection \<open>Decimal numbers\<close>

lemma of_char_digit_char: "d < 10 \<Longrightarrow> (of_char (digit_char d) :: nat) = 48 + d"
  by (simp add: digit_char_def)

lemma isdigit_digit_char: "d < 10 \<Longrightarrow> isdigit (digit_char d)"
  by (simp add: isdigit_def of_char_digit_char)

lemma digit_val_digit_char: "d < 10 \<Longrightarrow> digit_val (digit_char d) = d"
  by (simp add: digit_val_def of_char_digit_char)

lemma dec_digits: "c \<in> set (dec n) \<Longrightarrow> isdigit c"
proof (induction n arbitrary: c rule: dec.induct)
  case (1 n)
  show ?case
  proof (cases "n < 10")
    case True
    with "1.prems" show ?thesis
      by (simp add: dec.simps [of n] isdigit_digit_char)
  next
    case False
    with "1.prems" "1.IH" show ?thesis
      by (auto simp: dec.simps [of n] isdigit_digit_char)
  qed
qed

lemma dec_not_Nil: "dec n \<noteq> []"
  by (subst dec.simps) simp

lemma parse_digits_snoc: "parse_digits (ds @ [c]) = 10 * parse_digits ds + digit_val c"
  by (simp add: parse_digits_def)

lemma parse_digits_dec: "parse_digits (dec n) = n"
proof (induction n rule: dec.induct)
  case (1 n)
  show ?case
  proof (cases "n < 10")
    case True
    then show ?thesis
      by (simp add: dec.simps [of n] parse_digits_def digit_val_digit_char)
  next
    case False
    with "1.IH" show ?thesis
      by (simp add: dec.simps [of n] parse_digits_snoc digit_val_digit_char)
  qed
qed

lemma dec_inj: "dec m = dec n \<Longrightarrow> m = n"
proof -
  assume "dec m = dec n"
  then have "parse_digits (dec m) = parse_digits (dec n)" by simp
  then show "m = n" by (simp add: parse_digits_dec)
qed

lemma to_string_size_t_inj: "to_string_size_t i = to_string_size_t j \<Longrightarrow> i = j"
proof -
  assume "to_string_size_t i = to_string_size_t j"
  then have "unat i = unat j"
    by (simp add: to_string_size_t_def dec_inj)
  then show "i = j"
    by (simp add: word_unat_eq_iff)
qed

lemma takeWhile_isdigit_dec: "takeWhile isdigit (dec n) = dec n"
  by (simp add: dec_digits)

lemma isdigit_not_space: "isdigit c \<Longrightarrow> \<not> isspace c"
  by (auto simp: isdigit_def isspace_def)

lemma isdigit_not_sign: "isdigit c \<Longrightarrow> c \<noteq> CHR ''-'' \<and> c \<noteq> CHR ''+''"
  by (auto simp: isdigit_def)

lemma minus_not_space: "\<not> isspace CHR ''-''"
  by (simp add: isspace_def)

lemma stoll_dec:
  assumes "int n \<le> 2 ^ 63 - 1"
  shows "stoll (dec n) = Inr (word_of_int (int n))"
proof -
  obtain c r where cr: "dec n = c # r"
    using dec_not_Nil [of n] by (cases "dec n") auto
  then have c: "isdigit c"
    using dec_digits [of c n] by simp
  have d: "dropWhile isspace (dec n) = dec n"
    using isdigit_not_space [OF c] by (simp add: cr)
  have neg: "(case dec n of [] \<Rightarrow> False | c # r \<Rightarrow> c = CHR ''-'') = False"
    using isdigit_not_sign [OF c] by (simp add: cr)
  have s2: "(case dec n of [] \<Rightarrow> dec n
             | c # r \<Rightarrow> if c = CHR ''-'' \<or> c = CHR ''+'' then r else dec n) = dec n"
    using isdigit_not_sign [OF c] by (simp add: cr)
  show ?thesis
    unfolding stoll_def Let_def d neg s2 takeWhile_isdigit_dec parse_digits_dec
    using assms dec_not_Nil [of n] by simp
qed

lemma stoll_minus_dec:
  assumes "int n \<le> 2 ^ 63"
  shows "stoll (CHR ''-'' # dec n) = Inr (word_of_int (- int n))"
proof -
  have "dec n \<noteq> []" by (rule dec_not_Nil)
  then show ?thesis
    using assms
    by (simp add: stoll_def Let_def minus_not_space takeWhile_isdigit_dec parse_digits_dec)
qed

lemma stoll_to_string_int64: "stoll (to_string_int64 c) = Inr c"
proof (cases "sint c < 0")
  case True
  have "- (2 ^ 63) \<le> sint c"
    using sint_ge [of c] by simp
  then have "int (nat (- sint c)) \<le> 2 ^ 63"
    using True by simp
  from stoll_minus_dec [OF this] True show ?thesis
    by (simp add: to_string_int64_def)
next
  case False
  have "sint c < 2 ^ 63"
    using sint_lt [of c] by simp
  then have "int (nat (sint c)) \<le> 2 ^ 63 - 1"
    using False by simp
  from stoll_dec [OF this] False show ?thesis
    by (simp add: to_string_int64_def)
qed

lemma string_find_None: "string_find s c = None \<longleftrightarrow> c \<notin> set s"
  by (induction s) auto

lemma string_find_append: "c \<notin> set xs \<Longrightarrow> string_find (xs @ c # ys) c = Some (length xs)"
  by (induction xs) auto

lemma string_find_Some:
  "string_find s c = Some pos \<Longrightarrow>
     pos < length s \<and> s ! pos = c \<and> take pos s = takeWhile (\<lambda>x. x \<noteq> c) s"
proof (induction s arbitrary: pos)
  case Nil
  then show ?case by simp
next
  case (Cons x xs)
  then show ?case by (auto split: if_splits)
qed

subsection \<open>The table and the single calls\<close>

lemma map_of_table_put: "map_of (table_put k v d) = (map_of d)(k \<mapsto> v)"
  by (induction d) (auto simp: fun_upd_twist)

lemma map_of_delete: "map_of (filter (\<lambda>kv. fst kv \<noteq> key) d) = (map_of d)(key := None)"
  by (induction d) auto

lemma set_table_put: "set (table_put k v d) \<subseteq> insert (k, v) (set d)"
  by (induction d) (auto split: if_splits)


lemma get_present:
  assumes "map_of (db t) (to_string_size_t i) = Some (tx @ [NUL] @ to_string_int64 c)"
    and "NUL \<notin> set tx"
  shows "getSentenceFromDB OK i t = Returned (tx, c)"
  using assms
  by (simp add: getSentenceFromDB_def leveldb_Get_def ok_def string_find_append substr_def
      substr_from_def stoll_to_string_int64)

lemma get_absent:
  assumes "map_of (db t) (to_string_size_t i) = None"
  shows "getSentenceFromDB OK i t =
           Thrown (out_of_range ''Index out of range or failed to read from LevelDB: NotFound: '')"
  using assms
  by (simp add: getSentenceFromDB_def leveldb_Get_def ok_def)

lemma add_ok:
  "addSentenceToDB OK s t =
     (Returned (),
      t\<lparr>db := table_put (to_string_size_t (current_index t))
                 (fst s @ [NUL] @ to_string_int64 (snd s)) (db t),
        current_index := current_index t + 1\<rparr>)"
  by (simp add: addSentenceToDB_def leveldb_Put_def ok_def)

lemma add_fail:
  "io \<noteq> OK \<Longrightarrow>
   addSentenceToDB io s t =
     (Thrown (runtime_error (''Failed to write to LevelDB: '' @ ToString io)), t)"
  by (simp add: addSentenceToDB_def leveldb_Put_def ok_def)

lemma update_ok:
  "updateSentenceInDB OK i s t =
     (Returned (),
      t\<lparr>db := table_put (to_string_size_t i) (fst s @ [NUL] @ to_string_int64 (snd s)) (db t)\<rparr>)"
  by (simp add: updateSentenceInDB_def leveldb_Put_def ok_def)

lemma update_fail:
  "io \<noteq> OK \<Longrightarrow>
   updateSentenceInDB io i s t =
     (Thrown (runtime_error (''Failed to update LevelDB: '' @ ToString io)), t)"
  by (simp add: updateSentenceInDB_def leveldb_Put_def ok_def)

lemma remove_ok:
  "removeSentenceFromDB OK i t =
     (Returned (), t\<lparr>db := filter (\<lambda>kv. fst kv \<noteq> to_string_size_t i) (db t)\<rparr>)"
  by (simp add: removeSentenceFromDB_def leveldb_Delete_def ok_def)

lemma remove_fail:
  "io \<noteq> OK \<Longrightarrow>
   removeSentenceFromDB io i t =
     (Thrown (runtime_error (''Failed to delete from LevelDB: '' @ ToString io)), t)"
  by (simp add: removeSentenceFromDB_def leveldb_Delete_def ok_def)

lemma eq_char_of_iff: "c = char_of (n :: nat) \<longleftrightarrow> take_bit 8 n = of_char c"
  using char_of_eq_iff [of n c] by auto

lemmas eval_defs = getSentenceFromDB_def leveldb_Get_def ok_def substr_def substr_from_def
  stoll_def Let_def isspace_def isdigit_def parse_digits_def digit_val_def NUL_def
  to_string_size_t_def to_string_int64_def dec.simps digit_char_def char_of_eq_iff
  eq_char_of_iff fresh_def


subsection \<open>The table stays in key order\<close>







subsection \<open>C1: a sentence written by \<open>addSentenceToDB\<close> is read back by \<open>getSentenceFromDB\<close>\<close>

text \<open>
  C1 (amended). For every state of the trainer and every sentence whose text does not
  contain the byte 0, \<open>addSentenceToDB\<close> on a working medium returns normally, and
  \<open>getSentenceFromDB\<close> with the id that the insertion used (the value of
  \<open>current_index_\<close> before the call) then returns exactly the text and the count.
\<close>

theorem insert_get_roundtrip:
  assumes "NUL \<notin> set tx"
  shows "fst (addSentenceToDB OK (tx, c) t) = Returned ()
       \<and> getSentenceFromDB OK (current_index t) (snd (addSentenceToDB OK (tx, c) t))
           = Returned (tx, c)"
proof -
  let ?t' = "snd (addSentenceToDB OK (tx, c) t)"
  have "map_of (db ?t') (to_string_size_t (current_index t))
          = Some (tx @ [NUL] @ to_string_int64 c)"
    by (simp add: add_ok map_of_table_put)
  from get_present [OF this assms] show ?thesis
    by (simp add: add_ok)
qed

text \<open>The round trip at the sentence \<open>("a b", 3)\<close> in the fresh store.\<close>

theorem insert_get_roundtrip_witness:
  "NUL \<notin> set ''a b''
   \<and> getSentenceFromDB OK (current_index fresh) (snd (addSentenceToDB OK (''a b'', 3) fresh))
       = Returned (''a b'', 3)"
  using insert_get_roundtrip [where tx = "''a b''" and c = 3 and t = fresh]
  by (simp add: NUL_def)

text \<open>
  C1 as stated fails for a text that contains the separator: the sentence with the
  three-byte text \<open>a\<close>, 0, \<open>7\<close> and count 1 is stored as \<open>a\<close>, 0, \<open>7\<close>, 0, \<open>1\<close>
  and read back as \<open>("a", 7)\<close>.
\<close>

theorem insert_get_counterexample:
  "getSentenceFromDB OK (current_index fresh)
     (snd (addSentenceToDB OK ([CHR ''a'', NUL, CHR ''7''], 1) fresh)) = Returned (''a'', 7)
   \<and> Returned (''a'', 7) \<noteq> Returned ([CHR ''a'', NUL, CHR ''7''], 1 :: 64 word)"
  by (simp add: add_ok map_of_table_put eval_defs)

subsection \<open>C2: the order that \<open>Sorted\<close> returns\<close>

lemma mset_insert_by: "mset (insert_by lt x ys) = add_mset x (mset ys)"
  by (induction ys) auto

lemma mset_std_sort: "mset (std_sort lt xs) = mset xs"
  by (induction xs) (auto simp: std_sort_def mset_insert_by)

lemma set_insert_by: "set (insert_by lt x ys) = insert x (set ys)"
proof -
  have "set_mset (mset (insert_by lt x ys)) = set_mset (add_mset x (mset ys))"
    by (simp only: mset_insert_by)
  then show ?thesis by simp
qed

lemma Sorted_cmp_asym: "Sorted_cmp p q \<Longrightarrow> \<not> Sorted_cmp q p"
  by (auto simp: Sorted_cmp_def)

lemma Sorted_cmp_chain: "\<not> Sorted_cmp z y \<Longrightarrow> \<not> Sorted_cmp y x \<Longrightarrow> \<not> Sorted_cmp z x"
  by (auto simp: Sorted_cmp_def)

lemma ranked_insert_by:
  "sorted_wrt (\<lambda>p q. \<not> Sorted_cmp q p) ys
   \<Longrightarrow> sorted_wrt (\<lambda>p q. \<not> Sorted_cmp q p) (insert_by Sorted_cmp x ys)"
proof (induction ys)
  case Nil
  then show ?case by simp
next
  case (Cons y ys)
  show ?case
  proof (cases "Sorted_cmp y x")
    case True
    with Cons show ?thesis
      by (auto simp: set_insert_by Sorted_cmp_asym)
  next
    case False
    have "\<forall>z\<in>set ys. \<not> Sorted_cmp z x"
      using Cons.prems False by (auto dest: Sorted_cmp_chain)
    with Cons.prems False show ?thesis
      by simp
  qed
qed

lemma ranked_std_sort: "sorted_wrt (\<lambda>p q. \<not> Sorted_cmp q p) (std_sort Sorted_cmp xs)"
  by (induction xs) (auto simp: std_sort_def ranked_insert_by)

lemma ranked_values:
  "sorted_wrt (\<lambda>p q. \<not> Sorted_cmp q p) xs \<Longrightarrow> sorted_wrt (\<lambda>p q. snd q \<le> snd p) xs"
  by (induction xs) (auto simp: Sorted_cmp_def not_less)

lemma ranked_ties:
  assumes "sorted_wrt (\<lambda>p q. \<not> Sorted_cmp q p) xs"
    and "i < length xs" and "j < length xs"
    and "snd (xs ! i) = snd (xs ! j)" and "fst (xs ! i) < fst (xs ! j)"
  shows "i < j"
proof (rule ccontr)
  assume "\<not> i < j"
  then consider "i = j" | "j < i" by linarith
  then show False
  proof cases
    case 1
    with assms(5) show False by simp
  next
    case 2
    from sorted_wrt_nth_less [OF assms(1) 2 assms(2)]
    have "\<not> Sorted_cmp (xs ! i) (xs ! j)" .
    with assms(4,5) show False
      by (simp add: Sorted_cmp_def)
  qed
qed

text \<open>
  C2. For every list of (key, value) pairs over linearly ordered keys and values,
  \<open>Sorted\<close> returns a permutation of its input in which the values never increase
  from left to right, and of two pairs with equal values the one with the smaller key
  stands first.
\<close>

theorem Sorted_ordering:
  fixes m :: "('k::linorder \<times> 'v::linorder) list"
  shows "mset (Sorted m) = mset m
       \<and> sorted_wrt (\<lambda>p q. snd q \<le> snd p) (Sorted m)
       \<and> (\<forall>i j. i < length (Sorted m) \<and> j < length (Sorted m)
                \<and> snd (Sorted m ! i) = snd (Sorted m ! j)
                \<and> fst (Sorted m ! i) < fst (Sorted m ! j) \<longrightarrow> i < j)"
proof -
  have r: "sorted_wrt (\<lambda>p q. \<not> Sorted_cmp q p) (Sorted m)"
    by (simp add: Sorted_def ranked_std_sort)
  have "mset (Sorted m) = mset m"
    by (simp add: Sorted_def mset_std_sort)
  moreover have "sorted_wrt (\<lambda>p q. snd q \<le> snd p) (Sorted m)"
    using r by (rule ranked_values)
  moreover have "\<forall>i j. i < length (Sorted m) \<and> j < length (Sorted m)
                \<and> snd (Sorted m ! i) = snd (Sorted m ! j)
                \<and> fst (Sorted m ! i) < fst (Sorted m ! j) \<longrightarrow> i < j"
    using ranked_ties [OF r] by blast
  ultimately show ?thesis by blast
qed

text \<open>
  The pairs \<open>(2, 1)\<close>, \<open>(1, 1)\<close>, \<open>(3, 2)\<close> are ranked \<open>(3, 2)\<close>, \<open>(1, 1)\<close>, \<open>(2, 1)\<close>:
  positions 1 and 2 hold equal values and the smaller key comes first.
\<close>

theorem Sorted_ordering_witness:
  "Sorted [(2::nat, 1::int), (1, 1), (3, 2)] = [(3, 2), (1, 1), (2, 1)]
   \<and> mset [(3, 2), (1, 1), (2, 1)] = mset [(2::nat, 1::int), (1, 1), (3, 2)]
   \<and> snd ([(3::nat, 2::int), (1, 1), (2, 1)] ! 1) = snd ([(3::nat, 2::int), (1, 1), (2, 1)] ! 2)
   \<and> fst ([(3::nat, 2::int), (1, 1), (2, 1)] ! 1) < fst ([(3::nat, 2::int), (1, 1), (2, 1)] ! 2)
   \<and> (1::nat) < 2"
  using Sorted_ordering [of "[(2::nat, 1::int), (1, 1), (3, 2)]"]
  by (simp add: Sorted_def std_sort_def Sorted_cmp_def)

subsection \<open>Reading a stored value\<close>

lemma string_find_prefix: "c \<in> set xs \<Longrightarrow> string_find (xs @ ys) c = string_find xs c"
  by (induction xs) auto

lemma string_find_member: "c \<in> set xs \<Longrightarrow> \<exists>pos. string_find xs c = Some pos"
  using string_find_None [of xs c] by (cases "string_find xs c") auto

lemma stoll_errors:
  "stoll s = Inl e \<Longrightarrow> e = invalid_argument ''stoll'' \<or> e = out_of_range ''stoll''"
  by (auto simp: stoll_def Let_def split: if_splits)

lemma get_stored:
  assumes "map_of (db t) (to_string_size_t i) = Some v"
  shows "getSentenceFromDB OK i t =
           (case string_find v NUL of
              None \<Rightarrow> Thrown (runtime_error ''Corrupted value in LevelDB'')
            | Some pos \<Rightarrow>
                (case stoll (drop (pos + 1) v) of
                   Inl e \<Rightarrow> Thrown e
                 | Inr cnt \<Rightarrow> Returned (take pos v, cnt)))"
  using assms
  by (simp add: getSentenceFromDB_def leveldb_Get_def ok_def substr_def substr_from_def
      split: option.splits)

lemma get_fail:
  "io \<noteq> OK \<Longrightarrow>
   getSentenceFromDB io i t =
     Thrown (out_of_range (''Index out of range or failed to read from LevelDB: '' @ ToString io))"
  by (simp add: getSentenceFromDB_def leveldb_Get_def ok_def)

lemma get_truncated:
  assumes "map_of (db t) (to_string_size_t i) = Some (tx @ [NUL] @ rest)"
    and "NUL \<in> set tx"
  shows "(\<exists>e. getSentenceFromDB OK i t = Thrown e
              \<and> (e = invalid_argument ''stoll'' \<or> e = out_of_range ''stoll''))
       \<or> (\<exists>c'. getSentenceFromDB OK i t = Returned (takeWhile (\<lambda>x. x \<noteq> NUL) tx, c'))"
proof -
  obtain pos where pos: "string_find tx NUL = Some pos"
    using string_find_member [OF assms(2)] by blast
  then have f: "string_find (tx @ [NUL] @ rest) NUL = Some pos"
    using string_find_prefix [OF assms(2)] by simp
  from string_find_Some [OF pos]
  have tk: "take pos (tx @ [NUL] @ rest) = takeWhile (\<lambda>x. x \<noteq> NUL) tx"
    by simp
  show ?thesis
  proof (cases "stoll (drop (pos + 1) (tx @ [NUL] @ rest))")
    case (Inl e)
    then show ?thesis
      using get_stored [OF assms(1)] f stoll_errors [OF Inl] by simp
  next
    case (Inr c')
    then show ?thesis
      using get_stored [OF assms(1)] f tk by simp
  qed
qed

subsection \<open>C7: \<open>updateSentenceInDB\<close> writes without an existence check\<close>

text \<open>
  C7 (amended). For every state, id and sentence, \<open>updateSentenceInDB\<close> on a working medium
  returns normally whether or not a record is stored under the id, and leaves
  \<open>current_index_\<close> alone. If the text of the new sentence does not contain the byte 0,
  \<open>getSentenceFromDB\<close> with that id afterwards returns the new sentence. Every other id
  keeps its stored value, and \<open>getSentenceFromDB\<close> answers for it as before the update.
\<close>

theorem update_upsert:
  "fst (updateSentenceInDB OK i (tx, c) t) = Returned ()
   \<and> current_index (snd (updateSentenceInDB OK i (tx, c) t)) = current_index t
   \<and> (NUL \<notin> set tx \<longrightarrow>
        getSentenceFromDB OK i (snd (updateSentenceInDB OK i (tx, c) t)) = Returned (tx, c))
   \<and> (\<forall>j. j \<noteq> i \<longrightarrow>
        map_of (db (snd (updateSentenceInDB OK i (tx, c) t))) (to_string_size_t j)
          = map_of (db t) (to_string_size_t j)
        \<and> (\<forall>io. getSentenceFromDB io j (snd (updateSentenceInDB OK i (tx, c) t))
                  = getSentenceFromDB io j t))"
proof -
  let ?t' = "snd (updateSentenceInDB OK i (tx, c) t)"
  have stored: "map_of (db ?t') (to_string_size_t i) = Some (tx @ [NUL] @ to_string_int64 c)"
    by (simp add: update_ok map_of_table_put)
  have other: "map_of (db ?t') (to_string_size_t j) = map_of (db t) (to_string_size_t j)"
    if "j \<noteq> i" for j
    using that to_string_size_t_inj [of i j] by (auto simp: update_ok map_of_table_put)
  have same: "getSentenceFromDB io j ?t' = getSentenceFromDB io j t" if "j \<noteq> i" for j io
    using other [OF that] by (simp add: getSentenceFromDB_def leveldb_Get_def)
  show ?thesis
    using get_present [OF stored] other same by (simp add: update_ok)
qed

text \<open>
  In the fresh store nothing is stored under id 5; the update stores \<open>("hi", 2)\<close> there
  and id 4 answers as before.
\<close>

theorem update_upsert_witness:
  "NUL \<notin> set ''hi''
   \<and> getSentenceFromDB OK 5 (snd (updateSentenceInDB OK 5 (''hi'', 2) fresh)) = Returned (''hi'', 2)
   \<and> (4 :: 64 word) \<noteq> 5
   \<and> getSentenceFromDB OK 4 (snd (updateSentenceInDB OK 5 (''hi'', 2) fresh))
       = getSentenceFromDB OK 4 fresh"
  using update_upsert [where i = 5 and tx = "''hi''" and c = 2 and t = fresh]
  by (simp add: NUL_def)

text \<open>
  C7 as stated fails for a text that contains the separator: after the update of id 3 to
  the sentence whose text is the single byte 0, with count 1, \<open>getSentenceFromDB\<close> does
  not return the new sentence, it throws the \<open>invalid_argument\<close> of \<open>stoll\<close>.
\<close>

theorem update_get_counterexample:
  "getSentenceFromDB OK 3 (snd (updateSentenceInDB OK 3 ([NUL], 1) fresh))
     = Thrown (invalid_argument ''stoll'')
   \<and> Thrown (invalid_argument ''stoll'') \<noteq> Returned ([NUL], 1 :: 64 word)"
  by (simp add: update_ok map_of_table_put eval_defs)

subsection \<open>C9: the separator byte\<close>

text \<open>
  C9 (amended). \<open>addSentenceToDB\<close> and \<open>updateSentenceInDB\<close> store the text, the byte 0 and
  the decimal count, and \<open>getSentenceFromDB\<close> splits the stored value at its first byte 0.
  So for a sentence whose text contains no byte 0, reading after either write returns
  exactly the text and the count. For a text that contains a byte 0 the read either
  throws the \<open>invalid_argument\<close> or \<open>out_of_range\<close> of \<open>stoll\<close>, or returns as text only the
  prefix before the first byte 0 (with the number that follows it as count).
\<close>

theorem separator_encoding:
  "map_of (db (snd (addSentenceToDB OK (tx, c) t))) (to_string_size_t (current_index t))
     = Some (tx @ [NUL] @ to_string_int64 c)
   \<and> map_of (db (snd (updateSentenceInDB OK i (tx, c) t))) (to_string_size_t i)
     = Some (tx @ [NUL] @ to_string_int64 c)
   \<and> (NUL \<notin> set tx \<longrightarrow>
        getSentenceFromDB OK (current_index t) (snd (addSentenceToDB OK (tx, c) t))
          = Returned (tx, c)
        \<and> getSentenceFromDB OK i (snd (updateSentenceInDB OK i (tx, c) t)) = Returned (tx, c))
   \<and> (NUL \<in> set tx \<longrightarrow>
        (let r = getSentenceFromDB OK (current_index t) (snd (addSentenceToDB OK (tx, c) t))
         in r = Thrown (invalid_argument ''stoll'') \<or> r = Thrown (out_of_range ''stoll'')
            \<or> (\<exists>c'. r = Returned (takeWhile (\<lambda>x. x \<noteq> NUL) tx, c')))
        \<and> (let r = getSentenceFromDB OK i (snd (updateSentenceInDB OK i (tx, c) t))
           in r = Thrown (invalid_argument ''stoll'') \<or> r = Thrown (out_of_range ''stoll'')
              \<or> (\<exists>c'. r = Returned (takeWhile (\<lambda>x. x \<noteq> NUL) tx, c'))))"
proof -
  let ?ta = "snd (addSentenceToDB OK (tx, c) t)"
  let ?tu = "snd (updateSentenceInDB OK i (tx, c) t)"
  have a: "map_of (db ?ta) (to_string_size_t (current_index t))
             = Some (tx @ [NUL] @ to_string_int64 c)"
    by (simp add: add_ok map_of_table_put)
  have u: "map_of (db ?tu) (to_string_size_t i) = Some (tx @ [NUL] @ to_string_int64 c)"
    by (simp add: update_ok map_of_table_put)
  have plain: "getSentenceFromDB OK (current_index t) ?ta = Returned (tx, c)
             \<and> getSentenceFromDB OK i ?tu = Returned (tx, c)" if "NUL \<notin> set tx"
    using get_present [OF a that] get_present [OF u that] by simp
  have cut_a: "getSentenceFromDB OK (current_index t) ?ta = Thrown (invalid_argument ''stoll'')
           \<or> getSentenceFromDB OK (current_index t) ?ta = Thrown (out_of_range ''stoll'')
           \<or> (\<exists>c'. getSentenceFromDB OK (current_index t) ?ta
                    = Returned (takeWhile (\<lambda>x. x \<noteq> NUL) tx, c'))"
    if "NUL \<in> set tx"
    using get_truncated [OF a that] by auto
  have cut_u: "getSentenceFromDB OK i ?tu = Thrown (invalid_argument ''stoll'')
           \<or> getSentenceFromDB OK i ?tu = Thrown (out_of_range ''stoll'')
           \<or> (\<exists>c'. getSentenceFromDB OK i ?tu = Returned (takeWhile (\<lambda>x. x \<noteq> NUL) tx, c'))"
    if "NUL \<in> set tx"
    using get_truncated [OF u that] by auto
  show ?thesis
    unfolding Let_def using a u plain cut_a cut_u by blast
qed

text \<open>
  The text \<open>ab\<close> is read back whole; of the text \<open>a\<close>, 0, \<open>9\<close> written with count 4 only
  \<open>a\<close> comes back, with count 9.
\<close>

theorem separator_encoding_witness:
  "NUL \<notin> set ''ab''
   \<and> getSentenceFromDB OK 0 (snd (addSentenceToDB OK (''ab'', 4) fresh)) = Returned (''ab'', 4)
   \<and> NUL \<in> set [CHR ''a'', NUL, CHR ''9'']
   \<and> getSentenceFromDB OK 2 (snd (updateSentenceInDB OK 2 ([CHR ''a'', NUL, CHR ''9''], 4) fresh))
       = Returned (takeWhile (\<lambda>x. x \<noteq> NUL) [CHR ''a'', NUL, CHR ''9''], 9)"
  using separator_encoding [where tx = "''ab''" and c = 4 and t = fresh and i = 0]
    separator_encoding [where tx = "[CHR ''a'', NUL, CHR ''9'']" and c = 4 and t = fresh and i = 2]
  by (simp add: update_ok add_ok map_of_table_put eval_defs)

text \<open>
  C9 as stated fails where the claim says that a text is returned: for the text
  \<open>a\<close>, 0, \<open>b\<close> nothing is returned, since \<open>stoll\<close> finds no digit after the first byte 0.
\<close>

theorem separator_in_text_counterexample:
  "NUL \<in> set [CHR ''a'', NUL, CHR ''b'']
   \<and> getSentenceFromDB OK 0 (snd (addSentenceToDB OK ([CHR ''a'', NUL, CHR ''b''], 1) fresh))
       = Thrown (invalid_argument ''stoll'')"
  by (simp add: add_ok map_of_table_put eval_defs)

subsection \<open>Calls that the medium rejects\<close>

lemma load_fail:
  assumes "io \<noteq> OK"
  shows "\<exists>e. fst (loadSentencesFromDB io n t) = Thrown e"
proof (cases "load_loop (take n (db t)) []")
  case (Pair r out)
  then show ?thesis
    using assms
    by (cases r) (simp_all add: loadSentencesFromDB_def leveldb_NewIterator_def ok_def)
qed



lemma ctor_ok: "TrainerInterface_ctor OK disk = Returned \<lparr>db = disk, current_index = 0\<rparr>"
  by (simp add: TrainerInterface_ctor_def leveldb_Open_def ok_def)

subsection \<open>C8: how a storage failure reaches the caller\<close>






subsection \<open>C10: a failed insertion does not use up an id\<close>

text \<open>
  C10. If the write of \<open>addSentenceToDB\<close> fails, the call throws before
  \<open>++current_index_\<close>: the counter keeps its value, the next successful insertion writes
  under the id that the failed one would have used and moves the counter by one, and
  within any sequence of insertions a failed one changes no later id.
\<close>

theorem failed_insert_keeps_index:
  assumes "io \<noteq> OK"
  shows "fst (addSentenceToDB io s t)
           = Thrown (runtime_error (''Failed to write to LevelDB: '' @ ToString io))
       \<and> current_index (snd (addSentenceToDB io s t)) = current_index t
       \<and> map_of (db (snd (addSentenceToDB OK s' (snd (addSentenceToDB io s t)))))
            (to_string_size_t (current_index t))
           = Some (fst s' @ [NUL] @ to_string_int64 (snd s'))
       \<and> current_index (snd (addSentenceToDB OK s' (snd (addSentenceToDB io s t))))
           = current_index t + 1
       \<and> current_index (add_each (xs @ (io, s) # ys) t) = current_index (add_each (xs @ ys) t)"
proof -
  have "add_each (xs @ (io, s) # ys) t = add_each (xs @ ys) t"
    using assms by (simp add: add_each_def run_ops_def add_fail)
  then show ?thesis
    using assms by (simp add: add_fail add_ok map_of_table_put)
qed

text \<open>
  A rejected insertion into the fresh store leaves the counter at 0, and the next
  sentence, \<open>("b", 2)\<close>, is stored under the key \<open>0\<close>.
\<close>

theorem failed_insert_keeps_index_witness:
  "IOError ''disk full'' \<noteq> OK
   \<and> current_index (snd (addSentenceToDB (IOError ''disk full'') (''a'', 1) fresh)) = 0
   \<and> map_of (db (snd (addSentenceToDB OK (''b'', 2)
                   (snd (addSentenceToDB (IOError ''disk full'') (''a'', 1) fresh))))) ''0''
       = Some [CHR ''b'', NUL, CHR ''2'']"
  using failed_insert_keeps_index [where io = "IOError ''disk full''" and s = "(''a'', 1)"
      and t = fresh and s' = "(''b'', 2)" and xs = "[]" and ys = "[]"]
  by (simp add: add_ok add_fail map_of_table_put eval_defs)

subsection \<open>Sequences of insertions\<close>

lemma add_each_Nil: "add_each [] t = t"
  by (simp add: add_each_def run_ops_def)

lemma add_each_snoc:
  "add_each (xs @ [(io, s)]) t = snd (addSentenceToDB io s (add_each xs t))"
  by (simp add: add_each_def run_ops_def)

lemma successful_snoc:
  "successful (xs @ [(io, s)]) = (if io = OK then successful xs @ [s] else successful xs)"
  by (simp add: successful_def)

lemma id_key: "k < 2 ^ 64 \<Longrightarrow> to_string_size_t (of_nat k) = dec k"
  by (simp add: to_string_size_t_def unat_of_nat)

lemma add_each_index:
  "current_index (add_each xs t) = current_index t + of_nat (length (successful xs))"
proof (induction xs rule: rev_induct)
  case Nil
  then show ?case by (simp add: add_each_Nil successful_def)
next
  case (snoc x xs)
  obtain io s where x: "x = (io, s)" by (cases x)
  show ?case
  proof (cases "io = OK")
    case True
    with snoc show ?thesis
      by (simp add: x add_each_snoc successful_snoc add_ok)
  next
    case False
    with snoc show ?thesis
      by (simp add: x add_each_snoc successful_snoc add_fail)
  qed
qed

lemma add_each_lookup:
  assumes "current_index t = 0"
  shows "length (successful xs) \<le> 2 ^ 64 \<Longrightarrow> k < length (successful xs) \<Longrightarrow>
         map_of (db (add_each xs t)) (dec k)
           = Some (fst (successful xs ! k) @ [NUL] @ to_string_int64 (snd (successful xs ! k)))"
proof (induction xs arbitrary: k rule: rev_induct)
  case Nil
  then show ?case by (simp add: successful_def)
next
  case (snoc x xs)
  obtain io s where x: "x = (io, s)" by (cases x)
  show ?case
  proof (cases "io = OK")
    case False
    with snoc show ?thesis
      by (simp add: x add_each_snoc successful_snoc add_fail)
  next
    case True
    let ?m = "length (successful xs)"
    have m: "?m < 2 ^ 64"
      using snoc.prems(1) True by (simp add: x successful_snoc)
    have idx: "current_index (add_each xs t) = of_nat ?m"
      using add_each_index [of xs t] assms by simp
    have key: "to_string_size_t (current_index (add_each xs t)) = dec ?m"
      using id_key [OF m] idx by simp
    show ?thesis
    proof (cases "k = ?m")
      case True
      with \<open>io = OK\<close> key show ?thesis
        by (simp add: x add_each_snoc successful_snoc add_ok map_of_table_put)
    next
      case False
      with snoc.prems(2) \<open>io = OK\<close> have k: "k < ?m"
        by (simp add: x successful_snoc)
      have "dec k \<noteq> dec ?m"
        using False dec_inj by blast
      with snoc.IH [OF _ k] m k \<open>io = OK\<close> key show ?thesis
        by (simp add: x add_each_snoc successful_snoc add_ok map_of_table_put nth_append)
    qed
  qed
qed

lemma table_put_keys: "fst ` set (table_put k v d) = insert k (fst ` set d)"
  by (induction k v d rule: table_put.induct) (simp_all add: insert_commute)

lemma table_put_length: "k \<notin> fst ` set d \<Longrightarrow> length (table_put k v d) = Suc (length d)"
  by (induction d) auto

lemma add_each_keys:
  assumes "current_index t = 0" and "db t = []"
  shows "length (successful xs) \<le> 2 ^ 64 \<Longrightarrow>
         fst ` set (db (add_each xs t)) = dec ` {..<length (successful xs)}
         \<and> length (db (add_each xs t)) = length (successful xs)"
proof (induction xs rule: rev_induct)
  case Nil
  then show ?case using assms by (simp add: successful_def add_each_Nil)
next
  case (snoc x xs)
  obtain io s where x: "x = (io, s)" by (cases x)
  show ?case
  proof (cases "io = OK")
    case False
    with snoc show ?thesis
      by (simp add: x add_each_snoc successful_snoc add_fail)
  next
    case True
    let ?m = "length (successful xs)"
    have m: "?m < 2 ^ 64"
      using snoc.prems True by (simp add: x successful_snoc)
    have idx: "current_index (add_each xs t) = of_nat ?m"
      using add_each_index [of xs t] assms by simp
    have key: "to_string_size_t (current_index (add_each xs t)) = dec ?m"
      using id_key [OF m] idx by simp
    have ih: "fst ` set (db (add_each xs t)) = dec ` {..<?m}"
      "length (db (add_each xs t)) = ?m"
      using snoc.IH m by simp_all
    have new: "dec ?m \<notin> fst ` set (db (add_each xs t))"
      using ih(1) dec_inj by auto
    show ?thesis
      using True key ih new
      by (simp add: x add_each_snoc successful_snoc add_ok table_put_keys table_put_length
          lessThan_Suc)
  qed
qed

subsection \<open>C5: ids are handed out in sequence\<close>

text \<open>
  C5. The constructor sets \<open>current_index_\<close> to 0 and every successful \<open>addSentenceToDB\<close>
  adds one to it. So for every sequence of insertions, failed ones included, of which at
  most \<open>2^64\<close> succeed (the range of \<open>size_t\<close>): the counter ends at the number of
  successful insertions, the k-th successful insertion (counted from 0) is stored under
  id k whatever its text is and whatever was inserted before, different insertions have
  different keys, and a database that was created empty ends with exactly one record per
  successful insertion: two insertions of the same text are never merged.
\<close>

theorem sequential_ids:
  assumes "TrainerInterface_ctor OK disk = Returned t0"
    and "length (successful xs) \<le> 2 ^ 64"
  shows "current_index t0 = 0
       \<and> (\<forall>s t. current_index (snd (addSentenceToDB OK s t)) = current_index t + 1)
       \<and> current_index (add_each xs t0) = of_nat (length (successful xs))
       \<and> (\<forall>k<length (successful xs).
            map_of (db (add_each xs t0)) (to_string_size_t (of_nat k))
              = Some (fst (successful xs ! k) @ [NUL] @ to_string_int64 (snd (successful xs ! k))))
       \<and> (\<forall>j<length (successful xs). \<forall>k<length (successful xs).
            j \<noteq> k \<longrightarrow> to_string_size_t (of_nat j) \<noteq> to_string_size_t (of_nat k))
       \<and> (disk = [] \<longrightarrow> length (db (add_each xs t0)) = length (successful xs))"
proof -
  have t0: "t0 = \<lparr>db = disk, current_index = 0\<rparr>"
    using assms(1) by (simp add: ctor_ok)
  then have zero: "current_index t0 = 0" by simp
  have key: "to_string_size_t (of_nat k) = dec k" if "k < length (successful xs)" for k
    using that assms(2) by (intro id_key) simp
  have "current_index (add_each xs t0) = of_nat (length (successful xs))"
    using add_each_index [of xs t0] zero by simp
  moreover have "\<forall>k<length (successful xs).
            map_of (db (add_each xs t0)) (to_string_size_t (of_nat k))
              = Some (fst (successful xs ! k) @ [NUL] @ to_string_int64 (snd (successful xs ! k)))"
    using add_each_lookup [OF zero assms(2)] key by simp
  moreover have "\<forall>j<length (successful xs). \<forall>k<length (successful xs).
            j \<noteq> k \<longrightarrow> to_string_size_t (of_nat j) \<noteq> to_string_size_t (of_nat k)"
    using key dec_inj by auto
  moreover have "disk = [] \<longrightarrow> length (db (add_each xs t0)) = length (successful xs)"
    using add_each_keys [OF zero _ assms(2)] t0 by simp
  ultimately show ?thesis
    using zero by (simp add: add_ok)
qed

text \<open>
  The same sentence \<open>("a", 1)\<close> inserted twice, with a rejected insertion in between: the
  counter ends at 2 and the store holds two records.
\<close>

theorem sequential_ids_witness:
  "TrainerInterface_ctor OK [] = Returned fresh
   \<and> length (successful [(OK, (''a'', 1)), (IOError ''disk full'', (''b'', 1)), (OK, (''a'', 1))])
       \<le> 2 ^ 64
   \<and> current_index
        (add_each [(OK, (''a'', 1)), (IOError ''disk full'', (''b'', 1)), (OK, (''a'', 1))] fresh)
       = 2
   \<and> (1 :: nat) < length
        (successful [(OK, (''a'', 1)), (IOError ''disk full'', (''b'', 1)), (OK, (''a'', 1))])
   \<and> (0 :: nat) \<noteq> 1
   \<and> to_string_size_t (of_nat 0) \<noteq> to_string_size_t (of_nat 1)
   \<and> length (db
        (add_each [(OK, (''a'', 1)), (IOError ''disk full'', (''b'', 1)), (OK, (''a'', 1))] fresh))
       = 2"
proof -
  have h1: "TrainerInterface_ctor OK [] = Returned fresh"
    by (simp add: ctor_ok fresh_def)
  have h2: "length (successful [(OK, (''a'', 1)), (IOError ''disk full'', (''b'', 1)),
                (OK, (''a'', 1))]) \<le> 2 ^ 64"
    by (simp add: successful_def)
  from sequential_ids [OF h1 h2] h1 show ?thesis
    by (simp add: successful_def add_each_def run_ops_def add_ok add_fail eval_defs)
qed

subsection \<open>C3: when \<open>getSentenceFromDB\<close> fails\<close>

lemma drop_after_find:
  "string_find v c = Some pos \<Longrightarrow> drop (Suc pos) v = tl (dropWhile (\<lambda>x. x \<noteq> c) v)"
proof (induction v arbitrary: pos)
  case Nil
  then show ?case by simp
next
  case (Cons x xs)
  then show ?case by (auto split: if_splits)
qed

lemma get_thrown_iff:
  assumes "map_of (db t) (to_string_size_t i) = Some v"
  shows "(\<exists>e. getSentenceFromDB OK i t = Thrown e) \<longleftrightarrow>
         (NUL \<notin> set v \<or> (\<exists>e. stoll (tl (dropWhile (\<lambda>x. x \<noteq> NUL) v)) = Inl e))"
proof (cases "string_find v NUL")
  case None
  then show ?thesis
    using get_stored [OF assms] string_find_None [of v NUL] by simp
next
  case (Some pos)
  then have "NUL \<in> set v"
    using string_find_None [of v NUL] by auto
  then show ?thesis
    using get_stored [OF assms] Some drop_after_find [OF Some]
    by (auto split: sum.splits)
qed

text \<open>
  C3 (amended). \<open>getSentenceFromDB\<close> throws if and only if the read fails, or no record is
  stored under the id, or the stored value lacks the separator byte, or \<open>stoll\<close> rejects
  what follows the first separator byte of the stored value. With a working medium an
  absent record gives the \<open>out_of_range\<close> that carries LevelDB's NotFound status and a value
  without separator gives the \<open>runtime_error\<close> for a corrupted value. In particular,
  after any sequence of insertions into a database that was created empty, every id that
  no insertion has been given yields the not-found error.
\<close>

theorem get_failure_cases:
  "((\<exists>e. getSentenceFromDB io i t = Thrown e) \<longleftrightarrow>
      (io \<noteq> OK \<or> map_of (db t) (to_string_size_t i) = None
       \<or> (\<exists>v. map_of (db t) (to_string_size_t i) = Some v
              \<and> (NUL \<notin> set v
                  \<or> (\<exists>e. stoll (tl (dropWhile (\<lambda>x. x \<noteq> NUL) v)) = Inl e)))))
   \<and> (map_of (db t) (to_string_size_t i) = None \<longrightarrow>
        getSentenceFromDB OK i t
          = Thrown (out_of_range
              ''Index out of range or failed to read from LevelDB: NotFound: ''))
   \<and> (\<forall>v. map_of (db t) (to_string_size_t i) = Some v \<and> NUL \<notin> set v \<longrightarrow>
        getSentenceFromDB OK i t = Thrown (runtime_error ''Corrupted value in LevelDB''))
   \<and> (length (successful xs) \<le> 2 ^ 64 \<and> length (successful xs) \<le> unat i \<longrightarrow>
        getSentenceFromDB OK i (add_each xs fresh)
          = Thrown (out_of_range
              ''Index out of range or failed to read from LevelDB: NotFound: ''))"
proof -
  have iff: "(\<exists>e. getSentenceFromDB io i t = Thrown e) \<longleftrightarrow>
      (io \<noteq> OK \<or> map_of (db t) (to_string_size_t i) = None
       \<or> (\<exists>v. map_of (db t) (to_string_size_t i) = Some v
              \<and> (NUL \<notin> set v
                  \<or> (\<exists>e. stoll (tl (dropWhile (\<lambda>x. x \<noteq> NUL) v)) = Inl e))))"
  proof (cases "io = OK")
    case False
    then show ?thesis by (simp add: get_fail)
  next
    case True
    show ?thesis
    proof (cases "map_of (db t) (to_string_size_t i)")
      case None
      then show ?thesis using True by (simp add: get_absent)
    next
      case (Some v)
      then show ?thesis using True get_thrown_iff [OF Some] by simp
    qed
  qed
  have corrupt: "getSentenceFromDB OK i t = Thrown (runtime_error ''Corrupted value in LevelDB'')"
    if "map_of (db t) (to_string_size_t i) = Some v" and "NUL \<notin> set v" for v
    using get_stored [OF that(1)] that(2) string_find_None [of v NUL] by simp
  have never: "getSentenceFromDB OK i (add_each xs fresh)
          = Thrown (out_of_range
              ''Index out of range or failed to read from LevelDB: NotFound: '')"
    if "length (successful xs) \<le> 2 ^ 64" and "length (successful xs) \<le> unat i"
  proof -
    have "fst ` set (db (add_each xs fresh)) = dec ` {..<length (successful xs)}"
      using add_each_keys [OF _ _ that(1), of fresh] by (simp add: fresh_def)
    moreover have "dec (unat i) \<notin> dec ` {..<length (successful xs)}"
      using that(2) dec_inj by fastforce
    ultimately have "map_of (db (add_each xs fresh)) (to_string_size_t i) = None"
      by (simp add: map_of_eq_None_iff to_string_size_t_def)
    then show ?thesis by (rule get_absent)
  qed
  show ?thesis
    using iff corrupt never by (simp add: get_absent)
qed

text \<open>
  Id 7 in the fresh store is absent; a store that holds the value \<open>abc\<close> under key \<open>7\<close>
  is corrupt there; after one insertion id 1 has never been inserted.
\<close>

theorem get_failure_cases_witness:
  "map_of (db fresh) (to_string_size_t 7) = None
   \<and> getSentenceFromDB OK 7 fresh
       = Thrown (out_of_range ''Index out of range or failed to read from LevelDB: NotFound: '')
   \<and> map_of (db \<lparr>db = [(''7'', ''abc'')], current_index = 0\<rparr>) (to_string_size_t 7) = Some ''abc''
   \<and> NUL \<notin> set ''abc''
   \<and> getSentenceFromDB OK 7 \<lparr>db = [(''7'', ''abc'')], current_index = 0\<rparr>
       = Thrown (runtime_error ''Corrupted value in LevelDB'')
   \<and> length (successful [(OK, (''a'', 1))]) \<le> 2 ^ 64
   \<and> length (successful [(OK, (''a'', 1))]) \<le> unat (1 :: 64 word)
   \<and> getSentenceFromDB OK 1 (add_each [(OK, (''a'', 1))] fresh)
       = Thrown (out_of_range ''Index out of range or failed to read from LevelDB: NotFound: '')"
  using get_failure_cases [where io = OK and i = 7 and t = fresh and xs = "[]"]
    get_failure_cases [where io = OK and i = 7
      and t = "\<lparr>db = [(''7'', ''abc'')], current_index = 0\<rparr>" and xs = "[]"]
    get_failure_cases [where io = OK and i = 1 and t = fresh and xs = "[(OK, (''a'', 1))]"]
  by (simp add: successful_def add_each_def run_ops_def add_ok eval_defs)

text \<open>
  C3 as stated fails in the direction ``only if'': after the update of id 5 to the text
  \<open>x\<close>, 0, \<open>y\<close> with count 2 a record is stored under id 5 and its value contains the
  separator, and still \<open>getSentenceFromDB\<close> fails, with the \<open>invalid_argument\<close> of \<open>stoll\<close>.
\<close>

theorem get_failure_counterexample:
  "map_of (db (snd (updateSentenceInDB OK 5 ([CHR ''x'', NUL, CHR ''y''], 2) fresh)))
       (to_string_size_t 5)
     = Some [CHR ''x'', NUL, CHR ''y'', NUL, CHR ''2'']
   \<and> NUL \<in> set [CHR ''x'', NUL, CHR ''y'', NUL, CHR ''2'']
   \<and> getSentenceFromDB OK 5 (snd (updateSentenceInDB OK 5 ([CHR ''x'', NUL, CHR ''y''], 2) fresh))
     = Thrown (invalid_argument ''stoll'')"
  by (simp add: update_ok map_of_table_put eval_defs)

subsection \<open>C4: the order of a full scan\<close>















subsection \<open>C6: the counts of the stored sentences\<close>

lemma record_ok_put:
  assumes "\<forall>kv\<in>set d. record_ok kv" and "sentence_ok s"
  shows "\<forall>kv\<in>set (table_put (to_string_size_t i) (fst s @ [NUL] @ to_string_int64 (snd s)) d).
           record_ok kv"
proof -
  have "record_ok (to_string_size_t i, fst s @ [NUL] @ to_string_int64 (snd s))"
    using assms(2) unfolding record_ok_def sentence_ok_def by auto
  then show ?thesis
    using assms(1) set_table_put [of "to_string_size_t i" _ d] by blast
qed

lemma record_ok_apply_op:
  assumes "\<forall>kv\<in>set (db t). record_ok kv" and "op_ok x"
  shows "\<forall>kv\<in>set (db (apply_op t x)). record_ok kv"
proof (cases x)
  case (Insert io s)
  then show ?thesis
    using assms record_ok_put [of "db t" s "current_index t"]
    by (cases "io = OK") (simp_all add: add_ok add_fail)
next
  case (Update io i s)
  then show ?thesis
    using assms record_ok_put [of "db t" s i]
    by (cases "io = OK") (simp_all add: update_ok update_fail)
next
  case (Delete io i)
  then show ?thesis
    using assms by (cases "io = OK") (simp_all add: remove_ok remove_fail)
qed

lemma record_ok_run_ops:
  "\<forall>kv\<in>set (db t). record_ok kv \<Longrightarrow> \<forall>x\<in>set ops. op_ok x \<Longrightarrow>
   \<forall>kv\<in>set (db (run_ops ops t)). record_ok kv"
proof (induction ops arbitrary: t)
  case Nil
  then show ?case by (simp add: run_ops_def)
next
  case (Cons x ops)
  have "\<forall>kv\<in>set (db (apply_op t x)). record_ok kv"
    using Cons.prems by (intro record_ok_apply_op) simp_all
  from Cons.IH [OF this] Cons.prems(2) show ?case
    by (simp add: run_ops_def)
qed

lemma record_ok_get:
  assumes "\<forall>kv\<in>set (db t). record_ok kv" and "kv \<in> set (db t)"
  shows "\<exists>i tx c. fst kv = to_string_size_t i
           \<and> getSentenceFromDB OK i t = Returned (tx, c) \<and> 1 \<le> sint c"
proof -
  from assms obtain i where i: "fst kv = to_string_size_t i"
    unfolding record_ok_def by blast
  then have "to_string_size_t i \<in> fst ` set (db t)"
    using assms(2) by force
  then have "map_of (db t) (to_string_size_t i) \<noteq> None"
    by (simp add: map_of_eq_None_iff)
  then obtain v where v: "map_of (db t) (to_string_size_t i) = Some v"
    by auto
  then have "(to_string_size_t i, v) \<in> set (db t)"
    by (rule map_of_SomeD)
  with assms(1) have "record_ok (to_string_size_t i, v)" by blast
  then obtain tx c where "v = tx @ [NUL] @ to_string_int64 c" "NUL \<notin> set tx" "1 \<le> sint c"
    unfolding record_ok_def by auto
  with v get_present [of t i tx c] i show ?thesis by blast
qed

text \<open>
  C6 (amended). The store does not check counts; it keeps what it is given. Starting from
  a database that was created empty, after every sequence of insertions, updates and
  deletions, successful or not, in which every sentence written has a count of at least
  one and a text without a byte 0, every record of the store belongs to an id, and
  \<open>getSentenceFromDB\<close> for that id returns a sentence whose count is at least one.
\<close>

theorem counts_stay_positive:
  assumes "\<forall>x\<in>set ops. op_ok x"
  shows "\<forall>kv\<in>set (db (run_ops ops fresh)).
           \<exists>i tx c. fst kv = to_string_size_t i
             \<and> getSentenceFromDB OK i (run_ops ops fresh) = Returned (tx, c) \<and> 1 \<le> sint c"
proof -
  have "\<forall>kv\<in>set (db fresh). record_ok kv"
    by (simp add: fresh_def)
  then have "\<forall>kv\<in>set (db (run_ops ops fresh)). record_ok kv"
    using assms by (rule record_ok_run_ops)
  then show ?thesis
    using record_ok_get by blast
qed

text \<open>
  An insertion, an update of id 4 and the deletion of id 0 leave one record, under key
  \<open>4\<close>, which is read back with count 1.
\<close>

theorem counts_stay_positive_witness:
  "op_ok (Insert OK (''a'', 2)) \<and> op_ok (Update OK 4 (''b'', 1)) \<and> op_ok (Delete OK 0)
   \<and> db (run_ops [Insert OK (''a'', 2), Update OK 4 (''b'', 1), Delete OK 0] fresh)
       = [(''4'', [CHR ''b'', NUL, CHR ''1''])]
   \<and> getSentenceFromDB OK 4
        (run_ops [Insert OK (''a'', 2), Update OK 4 (''b'', 1), Delete OK 0] fresh)
       = Returned (''b'', 1)
   \<and> 1 \<le> sint (1 :: 64 word)"
proof -
  have h: "\<forall>x\<in>set [Insert OK (''a'', 2), Update OK 4 (''b'', 1), Delete OK 0]. op_ok x"
    by (simp add: sentence_ok_def NUL_def)
  from counts_stay_positive [OF h] h show ?thesis
    by (simp add: run_ops_def add_ok update_ok remove_ok sentence_ok_def eval_defs)
qed

text \<open>
  C6 as stated fails: nothing stops the insertion of a sentence with count 0, and the
  record is read back with that count.
\<close>

theorem count_zero_counterexample:
  "getSentenceFromDB OK 0 (run_ops [Insert OK (''a'', 0)] fresh) = Returned (''a'', 0)
   \<and> \<not> 1 \<le> sint (0 :: 64 word)"
  by (simp add: run_ops_def add_ok map_of_table_put eval_defs)

end
